theory Spec2Isabelle
  imports Complex_Main "HOL-Library.AList" "HOL-Library.Multiset"
begin

section \<open>Market.CSGO undercutting: the repricing cycle\<close>

text \<open>
  A shallow embedding of \<^verbatim>\<open>modules/api_client.py\<close>, \<^verbatim>\<open>modules/config_manager.py\<close> and
  \<^verbatim>\<open>modules/price_manager.py\<close>.

  \<^item> Prices are Python floats in the source. A float is modelled by the real number that
    is its value; infinities and NaN are outside the model. The position estimate is
    computed as the machine computes it: its subtraction and its division are rounded to
    binary64 (\<open>round_double\<close>), and \<open>0.01\<close> is the double nearest to it. The decision
    (\<^verbatim>\<open>best_price - 0.01\<close> against the floor and the current price) and the wire encoding
    are taken in exact arithmetic.
  \<^item> JSON responses are dictionaries in the source. They are modelled as records whose
    fields are optional, so that every \<^verbatim>\<open>d.get(key, default)\<close> is a case distinction on
    an absent key.
  \<^item> The outside world (the HTTP transport and the operator at the keyboard) is an
    environment of scripted answers; the state passed through every call counts the
    answers used so far and records the observable effects in order.
\<close>

subsection \<open>Python numerics\<close>

text \<open>\<^verbatim>\<open>int(x)\<close> on a float truncates towards zero.\<close>

definition py_int :: "real \<Rightarrow> int" where
  "py_int x = (if 0 \<le> x then \<lfloor>x\<rfloor> else \<lceil>x\<rceil>)"

text \<open>\<^verbatim>\<open>round(x)\<close> with one argument returns the nearest integer, a tie going to the even
  neighbour.\<close>

definition py_round :: "real \<Rightarrow> int" where
  "py_round x =
     (let f = \<lfloor>x\<rfloor>; r = x - of_int f
      in if r < 1 / 2 then f
         else if 1 / 2 < r then f + 1
         else if even f then f else f + 1)"

subsection \<open>Binary floating point\<close>

text \<open>The power of two with an integer exponent.\<close>

definition two_to :: "int \<Rightarrow> real" where
  "two_to k = (if 0 \<le> k then 2 ^ nat k else 1 / 2 ^ nat (- k))"

text \<open>The exponent of the unit in the last place of the double nearest to \<open>x\<close>: a double
  has 53 significant bits, and below \<open>2 ^ - 1022\<close> the unit stays at \<open>2 ^ - 1074\<close>.\<close>

definition ulp_exponent :: "real \<Rightarrow> int" where
  "ulp_exponent x = max (\<lfloor>log 2 \<bar>x\<bar>\<rfloor> - 52) (- 1074)"

text \<open>Rounding to the nearest double, a tie going to the even significand (the IEEE 754
  default, which Python uses). The largest double is not modelled: a result beyond it,
  which Python makes an infinity, is rounded as if the exponent had no upper bound.\<close>

definition round_double :: "real \<Rightarrow> real" where
  "round_double x =
     (if x = 0 then 0
      else (let u = two_to (ulp_exponent x)
            in real_of_int (py_round (x / u)) * u))"

text \<open>\<^verbatim>\<open>a - b\<close> and \<^verbatim>\<open>a / b\<close> on floats.\<close>

definition float_sub :: "real \<Rightarrow> real \<Rightarrow> real" where
  "float_sub a b = round_double (a - b)"

definition float_div :: "real \<Rightarrow> real \<Rightarrow> real" where
  "float_div a b = round_double (a / b)"

subsection \<open>Wire data\<close>

text \<open>A listing object of the \<^verbatim>\<open>items\<close> endpoint.\<close>

record listing =
  l_item_id :: "string option"
  l_market_hash_name :: "string option"
  l_price :: "real option"
  l_status :: "int option"

text \<open>An offer object of \<^verbatim>\<open>search-item-by-hash-name\<close>; the price is the currency amount
  times 1000.\<close>

record offer =
  o_price :: "int option"

text \<open>A response dictionary; only the keys the program reads.\<close>

record response =
  success :: "bool option"
  error :: "string option"
  items :: "listing list option"
  data :: "offer list option"

datatype param = PStr string | PInt int

record request =
  endpoint :: string
  params :: "(string \<times> param) list"

text \<open>What one \<^verbatim>\<open>session.get\<close> followed by \<^verbatim>\<open>raise_for_status\<close> and \<^verbatim>\<open>json\<close> does:
  it returns the decoded body or raises. \<open>RequestException\<close> stands for every
  \<^verbatim>\<open>requests\<close> exception that is neither a timeout nor a connection error (an HTTP
  4xx/5xx status among them); each carries the text of \<^verbatim>\<open>str(e)\<close>.\<close>

datatype http_outcome =
    Returned response
  | Timeout string
  | ConnectionError string
  | RequestException string

subsection \<open>The world\<close>

text \<open>What the program does to the outside, in order: a request, a wait, a prompt, the
  warning of \<^verbatim>\<open>get_my_items_info\<close> that the prices for a hash name could not be obtained,
  and the dump of a full response by \<^verbatim>\<open>update_item_price\<close>. The other console lines
  are not recorded.\<close>

datatype event =
    Http_get request
  | Sleep real
  | Input_prompt
  | Print_no_prices string
  | Print_full_response response

text \<open>\<open>transport env n req\<close> is the outcome of the \<open>n\<close>-th HTTP request of the run when it
  is \<open>req\<close>. \<open>operator_confirms env n\<close> tells whether the \<open>n\<close>-th line typed at the
  confirmation prompt is, once stripped and lower-cased, one of \<^verbatim>\<open>yes\<close>, \<^verbatim>\<open>y\<close>,
  \<^verbatim>\<open>da\<close> (Cyrillic).\<close>

record env =
  api_key :: string
  transport :: "nat \<Rightarrow> request \<Rightarrow> http_outcome"
  operator_confirms :: "nat \<Rightarrow> bool"

record world =
  requests_made :: nat
  lines_read :: nat
  trace :: "event list"

definition emit :: "event \<Rightarrow> world \<Rightarrow> world" where
  "emit e w = w\<lparr>trace := trace w @ [e]\<rparr>"

definition sleep :: "real \<Rightarrow> world \<Rightarrow> world" where
  "sleep seconds w = emit (Sleep seconds) w"

definition session_get :: "env \<Rightarrow> request \<Rightarrow> world \<Rightarrow> http_outcome \<times> world" where
  "session_get e req w =
     (transport e (requests_made w) req,
      emit (Http_get req) (w\<lparr>requests_made := requests_made w + 1\<rparr>))"

definition input_confirm :: "env \<Rightarrow> world \<Rightarrow> bool \<times> world" where
  "input_confirm e w =
     (operator_confirms e (lines_read w),
      emit Input_prompt (w\<lparr>lines_read := lines_read w + 1\<rparr>))"

subsection \<open>api_client.py\<close>

definition get_success :: "response \<Rightarrow> bool" where
  "get_success r = (case success r of None \<Rightarrow> False | Some b \<Rightarrow> b)"

text \<open>The dictionary \<^verbatim>\<open>{"success": False, "error": str(e)}\<close>.\<close>

definition failure :: "string \<Rightarrow> response" where
  "failure msg = \<lparr>success = Some False, error = Some msg, items = None, data = None\<rparr>"

text \<open>The body of the loop \<^verbatim>\<open>for attempt in range(max_retries)\<close> of \<^verbatim>\<open>_make_request\<close>,
  entered at \<open>attempt\<close>. The loop is left by a \<^verbatim>\<open>return\<close> in every branch but the one
  that continues, which is taken only when \<open>attempt < max_retries - 1\<close>.\<close>

function make_request_attempt ::
  "env \<Rightarrow> request \<Rightarrow> nat \<Rightarrow> nat \<Rightarrow> world \<Rightarrow> response \<times> world" where
  "make_request_attempt e req max_retries attempt w =
     (let retry_delay = 10;
          (outcome, w1) = session_get e req w
      in case outcome of
           Returned body \<Rightarrow> (body, w1)
         | Timeout msg \<Rightarrow>
             if attempt < max_retries - 1
             then make_request_attempt e req max_retries (attempt + 1) (sleep retry_delay w1)
             else (failure msg, w1)
         | ConnectionError msg \<Rightarrow>
             if attempt < max_retries - 1
             then make_request_attempt e req max_retries (attempt + 1) (sleep retry_delay w1)
             else (failure msg, w1)
         | RequestException msg \<Rightarrow> (failure msg, w1))"
  by pat_completeness auto
termination
  by (relation "measure (\<lambda>(e, req, max_retries, attempt, w). max_retries - attempt)") auto

text \<open>\<^verbatim>\<open>_make_request\<close>. Its parameter \<^verbatim>\<open>max_retries\<close> has the default 3 and no caller
  passes another value, so the range of the loop is never empty.\<close>

definition max_retries_default :: nat where
  "max_retries_default = 3"

text \<open>The request that goes out: the endpoint and the parameters after
  \<^verbatim>\<open>params['key'] = self.api_key\<close>.\<close>

definition request_of :: "env \<Rightarrow> string \<Rightarrow> (string \<times> param) list \<Rightarrow> request" where
  "request_of e ep ps =
     \<lparr>endpoint = ep, params = AList.update ''key'' (PStr (api_key e)) ps\<rparr>"

definition make_request :: "env \<Rightarrow> string \<Rightarrow> (string \<times> param) list \<Rightarrow> world \<Rightarrow> response \<times> world" where
  "make_request e ep ps w =
     make_request_attempt e (request_of e ep ps) max_retries_default 0 w"

definition get_status :: "listing \<Rightarrow> int" where
  "get_status it = (case l_status it of None \<Rightarrow> 0 | Some s \<Rightarrow> s)"

definition get_items_on_sale :: "env \<Rightarrow> world \<Rightarrow> response \<times> world" where
  "get_items_on_sale e w =
     (let (resp, w1) = make_request e ''items'' [(''v'', PStr ''2'')] w
      in if get_success resp \<and> items resp \<noteq> None
         then (case items resp of
                 Some all_items \<Rightarrow>
                   (resp\<lparr>items := Some (filter (\<lambda>it. get_status it \<noteq> 2) all_items)\<rparr>, w1)
               | None \<Rightarrow> (resp, w1))
         else (resp, w1))"

definition get_best_offer_for_item :: "env \<Rightarrow> string \<Rightarrow> world \<Rightarrow> response \<times> world" where
  "get_best_offer_for_item e name w =
     make_request e ''search-item-by-hash-name'' [(''hash_name'', PStr name)] w"

definition price_formatted :: "real \<Rightarrow> int" where
  "price_formatted price = py_round (price * 1000)"

definition set_price_params :: "string \<Rightarrow> real \<Rightarrow> string \<Rightarrow> (string \<times> param) list" where
  "set_price_params iid price currency =
     [(''item_id'', PStr iid), (''price'', PInt (price_formatted price)), (''cur'', PStr currency)]"

definition set_price :: "env \<Rightarrow> string \<Rightarrow> real \<Rightarrow> string \<Rightarrow> world \<Rightarrow> response \<times> world" where
  "set_price e iid price currency w =
     make_request e ''set-price'' (set_price_params iid price currency) w"

subsection \<open>config_manager.py\<close>

record config =
  min_prices :: "(string \<rightharpoonup> real) option"

definition get_min_price :: "config \<Rightarrow> string \<Rightarrow> real option" where
  "get_min_price cfg name =
     (case min_prices cfg of None \<Rightarrow> None | Some m \<Rightarrow> m name)"

subsection \<open>price_manager.py\<close>

record ItemInfo =
  item_id :: string
  market_hash_name :: string
  current_price :: real
  best_price :: real
  position :: int

definition calculate_position :: "real \<Rightarrow> real \<Rightarrow> int" where
  "calculate_position current best =
     (if current \<le> best then 1
      else (let position_diff =
                  py_int (float_div (float_sub current best) (round_double 0.01)) + 1
            in max 2 position_diff))"

text \<open>The price of the first offer, \<^verbatim>\<open>float(offers[0].get("price", 0)) / 1000\<close>.\<close>

definition offer_best_price :: "offer \<Rightarrow> real" where
  "offer_best_price ofr = real_of_int (case o_price ofr of None \<Rightarrow> 0 | Some p \<Rightarrow> p) / 1000"

text \<open>The truth value of \<^verbatim>\<open>price_info.get("data")\<close>: a list that is there and not empty.\<close>

definition data_truthy :: "response \<Rightarrow> bool" where
  "data_truthy r = (case data r of None \<Rightarrow> False | Some offers \<Rightarrow> offers \<noteq> [])"

text \<open>\<^verbatim>\<open>item.get("item_id", "")\<close>, \<^verbatim>\<open>item.get("market_hash_name", "")\<close> and
  \<^verbatim>\<open>float(item.get("price", 0))\<close>.\<close>

definition get_item_id :: "listing \<Rightarrow> string" where
  "get_item_id it = (case l_item_id it of None \<Rightarrow> [] | Some s \<Rightarrow> s)"

definition get_market_hash_name :: "listing \<Rightarrow> string" where
  "get_market_hash_name it = (case l_market_hash_name it of None \<Rightarrow> [] | Some s \<Rightarrow> s)"

definition get_price :: "listing \<Rightarrow> real" where
  "get_price it = (case l_price it of None \<Rightarrow> 0 | Some p \<Rightarrow> p)"

text \<open>The body of the loop over the listings in \<^verbatim>\<open>get_my_items_info\<close>.\<close>

definition item_info :: "env \<Rightarrow> listing \<Rightarrow> world \<Rightarrow> ItemInfo \<times> world" where
  "item_info e it w =
     (let iid = get_item_id it;
          name = get_market_hash_name it;
          current = get_price it;
          (price_info, w1) = get_best_offer_for_item e name w;
          (best, w2) =
            (if get_success price_info \<and> data_truthy price_info
             then (case data price_info of
                     Some (first_offer # _) \<Rightarrow> (offer_best_price first_offer, w1)
                   | _ \<Rightarrow> (current, w1))
             else (current, emit (Print_no_prices name) w1));
          pos = calculate_position current best
      in (\<lparr>item_id = iid, market_hash_name = name, current_price = current,
            best_price = best, position = pos\<rparr>,
          sleep 0.5 w2))"

fun items_info_loop :: "env \<Rightarrow> listing list \<Rightarrow> world \<Rightarrow> ItemInfo list \<times> world" where
  "items_info_loop e [] w = ([], w)"
| "items_info_loop e (it # rest) w =
     (let (info, w1) = item_info e it w;
          (infos, w2) = items_info_loop e rest w1
      in (info # infos, w2))"

definition get_my_items_info :: "env \<Rightarrow> world \<Rightarrow> ItemInfo list \<times> world" where
  "get_my_items_info e w =
     (let (my_items_response, w1) = get_items_on_sale e w
      in if \<not> get_success my_items_response then ([], w1)
         else (let my_items = (case items my_items_response of None \<Rightarrow> [] | Some l \<Rightarrow> l)
               in if my_items = [] then ([], w1)
                  else items_info_loop e my_items w1))"

definition should_update_price :: "config \<Rightarrow> ItemInfo \<Rightarrow> bool \<times> real option" where
  "should_update_price cfg item =
     (if position item = 1 then (False, None)
      else (let new_price = best_price item - 0.01;
                min_price = get_min_price cfg (market_hash_name item)
            in if (case min_price of None \<Rightarrow> False | Some m \<Rightarrow> new_price < m)
               then (False, None)
               else if new_price \<ge> current_price item then (False, None)
               else (True, Some new_price)))"

text \<open>The default of \<^verbatim>\<open>response.get("error", ...)\<close>, a Russian phrase for "unknown
  error", as its UTF-8 bytes.\<close>

definition unknown_error :: string where
  "unknown_error =
     [CHR 0xD0, CHR 0x9D, CHR 0xD0, CHR 0xB5, CHR 0xD0, CHR 0xB8, CHR 0xD0, CHR 0xB7,
      CHR 0xD0, CHR 0xB2, CHR 0xD0, CHR 0xB5, CHR 0xD1, CHR 0x81, CHR 0xD1, CHR 0x82,
      CHR 0xD0, CHR 0xBD, CHR 0xD0, CHR 0xB0, CHR 0xD1, CHR 0x8F, CHR 0x20, CHR 0xD0,
      CHR 0xBE, CHR 0xD1, CHR 0x88, CHR 0xD0, CHR 0xB8, CHR 0xD0, CHR 0xB1, CHR 0xD0,
      CHR 0xBA, CHR 0xD0, CHR 0xB0]"

definition get_error :: "response \<Rightarrow> string" where
  "get_error r = (case error r of None \<Rightarrow> unknown_error | Some msg \<Rightarrow> msg)"

text \<open>The body of the loop \<^verbatim>\<open>for attempt in range(max_retries)\<close> of
  \<^verbatim>\<open>update_item_price\<close>, entered at \<open>attempt\<close>, with the local constants
  \<^verbatim>\<open>max_retries = 3\<close> and \<^verbatim>\<open>retry_delay = 10\<close>. The last attempt returns in every
  branch, so the \<^verbatim>\<open>return False\<close> after the loop is never reached.\<close>

function update_attempt :: "env \<Rightarrow> ItemInfo \<Rightarrow> real \<Rightarrow> nat \<Rightarrow> world \<Rightarrow> bool \<times> world" where
  "update_attempt e item new_price attempt w =
     (let max_retries = 3 :: nat;
          retry_delay = 10;
          (resp, w1) = set_price e (item_id item) new_price ''USD'' w
      in if get_success resp then (True, w1)
         else if get_error resp = ''too_often'' \<and> attempt < max_retries - 1
         then update_attempt e item new_price (attempt + 1) (sleep retry_delay w1)
         else (False, emit (Print_full_response resp) w1))"
  by pat_completeness auto
termination
  by (relation "measure (\<lambda>(e, item, new_price, attempt, w). 3 - attempt)") auto

definition update_item_price :: "env \<Rightarrow> ItemInfo \<Rightarrow> real \<Rightarrow> bool \<Rightarrow> world \<Rightarrow> bool \<times> world" where
  "update_item_price e item new_price auto_confirm w =
     (if \<not> auto_confirm
      then (let (confirmed, w1) = input_confirm e w
            in if \<not> confirmed then (False, w1)
               else update_attempt e item new_price 0 w1)
      else update_attempt e item new_price 0 w)"

record stats =
  total_items :: int
  updated :: int
  skipped :: int
  first_position :: int
  below_min :: int

text \<open>The truth value of \<^verbatim>\<open>min_price and (item.best_price - 0.01) < min_price\<close>: a floor
  that is \<^verbatim>\<open>None\<close> or zero is false.\<close>

definition below_min_test :: "config \<Rightarrow> ItemInfo \<Rightarrow> bool" where
  "below_min_test cfg item =
     (case get_min_price cfg (market_hash_name item) of
        None \<Rightarrow> False
      | Some m \<Rightarrow> m \<noteq> 0 \<and> best_price item - 0.01 < m)"

text \<open>The body of the loop over the items in \<^verbatim>\<open>process_all_items\<close>. The source
  unpacks the pair returned by \<^verbatim>\<open>should_update_price\<close> and tests its flag; the flag is
  true only together with a price, which is the first case below.\<close>

definition process_item ::
  "env \<Rightarrow> config \<Rightarrow> bool \<Rightarrow> ItemInfo \<Rightarrow> stats \<times> world \<Rightarrow> stats \<times> world" where
  "process_item e cfg auto_confirm item sw =
     (let (st, w) = sw
      in if position item = 1 then (st\<lparr>first_position := first_position st + 1\<rparr>, w)
         else (case should_update_price cfg item of
                 (True, Some new_price) \<Rightarrow>
                   (let (ok, w1) = update_item_price e item new_price auto_confirm w
                    in if ok then (st\<lparr>updated := updated st + 1\<rparr>, w1)
                       else (st\<lparr>skipped := skipped st + 1\<rparr>, w1))
               | _ \<Rightarrow>
                   (let st1 = st\<lparr>skipped := skipped st + 1\<rparr>
                    in if below_min_test cfg item
                       then (st1\<lparr>below_min := below_min st1 + 1\<rparr>, w)
                       else (st1, w))))"

fun process_loop ::
  "env \<Rightarrow> config \<Rightarrow> bool \<Rightarrow> ItemInfo list \<Rightarrow> stats \<times> world \<Rightarrow> stats \<times> world" where
  "process_loop e cfg auto_confirm [] sw = sw"
| "process_loop e cfg auto_confirm (item # rest) sw =
     process_loop e cfg auto_confirm rest (process_item e cfg auto_confirm item sw)"

text \<open>The dictionary \<^verbatim>\<open>stats\<close> before the loop.\<close>

definition initial_stats :: "int \<Rightarrow> stats" where
  "initial_stats n =
     \<lparr>total_items = n, updated = 0, skipped = 0, first_position = 0, below_min = 0\<rparr>"

definition process_all_items :: "env \<Rightarrow> config \<Rightarrow> bool \<Rightarrow> world \<Rightarrow> stats \<times> world" where
  "process_all_items e cfg auto_confirm w =
     (let (its, w1) = get_my_items_info e w
      in process_loop e cfg auto_confirm its (initial_stats (int (length its)), w1))"

subsection \<open>Which branch of the cycle a listing takes\<close>

text \<open>The five branches of the loop body of \<^verbatim>\<open>process_all_items\<close>, as labels: the listing
  is first already; its price was updated; an update was due but
  \<^verbatim>\<open>update_item_price\<close> returned false; no update was due and the test for the floor
  counted it; no update was due and the test did not count it.\<close>

datatype branch = Already_first | Price_updated | Update_failed | Below_min | Not_lower

definition item_branch :: "env \<Rightarrow> config \<Rightarrow> bool \<Rightarrow> ItemInfo \<Rightarrow> world \<Rightarrow> branch" where
  "item_branch e cfg auto_confirm item w =
     (if position item = 1 then Already_first
      else (case should_update_price cfg item of
              (True, Some new_price) \<Rightarrow>
                (if fst (update_item_price e item new_price auto_confirm w)
                 then Price_updated else Update_failed)
            | _ \<Rightarrow> (if below_min_test cfg item then Below_min else Not_lower)))"

text \<open>The branches taken by the listings of a cycle, in order; the world moves on as
  \<open>process_item\<close> moves it.\<close>

fun branches :: "env \<Rightarrow> config \<Rightarrow> bool \<Rightarrow> ItemInfo list \<Rightarrow> world \<Rightarrow> branch list" where
  "branches e cfg auto_confirm [] w = []"
| "branches e cfg auto_confirm (item # rest) w =
     item_branch e cfg auto_confirm item w #
     branches e cfg auto_confirm rest
       (snd (process_item e cfg auto_confirm item (initial_stats 0, w)))"

subsection \<open>A concrete cycle\<close>

text \<open>Three listings: \<open>A\<close> at 9.50 against a best offer of 9.50; \<open>B\<close> at 10.00 against
  9.50 with no floor; \<open>C\<close> at 10.00 against 9.50 with a floor of 9.50. Every request is
  answered at once and every price submission succeeds.\<close>

definition ok_response :: response where
  "ok_response = \<lparr>success = Some True, error = None, items = None, data = None\<rparr>"

definition three_listings :: "listing list" where
  "three_listings =
     [\<lparr>l_item_id = Some ''1'', l_market_hash_name = Some ''A'', l_price = Some 9.5, l_status = Some 1\<rparr>,
      \<lparr>l_item_id = Some ''2'', l_market_hash_name = Some ''B'', l_price = Some 10, l_status = Some 1\<rparr>,
      \<lparr>l_item_id = Some ''3'', l_market_hash_name = Some ''C'', l_price = Some 10, l_status = Some 1\<rparr>]"

definition three_transport :: "nat \<Rightarrow> request \<Rightarrow> http_outcome" where
  "three_transport n req =
     (if endpoint req = ''items'' then Returned (ok_response\<lparr>items := Some three_listings\<rparr>)
      else if endpoint req = ''search-item-by-hash-name''
      then Returned (ok_response\<lparr>data := Some [\<lparr>o_price = Some 9500\<rparr>]\<rparr>)
      else Returned ok_response)"

definition three_env :: env where
  "three_env = \<lparr>api_key = ''key'', transport = three_transport, operator_confirms = (\<lambda>n. True)\<rparr>"

definition three_config :: config where
  "three_config = \<lparr>min_prices = Some [''C'' \<mapsto> 9.5]\<rparr>"

definition start :: world where
  "start = \<lparr>requests_made = 0, lines_read = 0, trace = []\<rparr>"

text \<open>A marketplace that answers every request with the rate-limit error, and one whose
  connection always times out.\<close>

definition too_often_response :: response where
  "too_often_response = \<lparr>success = Some False, error = Some ''too_often'', items = None, data = None\<rparr>"

definition too_often_env :: env where
  "too_often_env =
     \<lparr>api_key = ''key'', transport = (\<lambda>n req. Returned too_often_response),
      operator_confirms = (\<lambda>n. True)\<rparr>"


text \<open>Whether an outcome is one of the two exceptions that \<^verbatim>\<open>_make_request\<close> retries, and
  the text it carries.\<close>

fun transient :: "http_outcome \<Rightarrow> bool" where
  "transient (Timeout msg) = True"
| "transient (ConnectionError msg) = True"
| "transient (Returned body) = False"
| "transient (RequestException msg) = False"

fun message :: "http_outcome \<Rightarrow> string" where
  "message (Timeout msg) = msg"
| "message (ConnectionError msg) = msg"
| "message (RequestException msg) = msg"
| "message (Returned body) = []"


text \<open>The three listings as \<^verbatim>\<open>get_my_items_info\<close> describes them, and a hand-made
  description whose price is already below the best offer although its position is 2.\<close>

definition item_A :: ItemInfo where
  "item_A = \<lparr>item_id = ''1'', market_hash_name = ''A'', current_price = 9.5,
              best_price = 9.5, position = 1\<rparr>"

definition item_B :: ItemInfo where
  "item_B = \<lparr>item_id = ''2'', market_hash_name = ''B'', current_price = 10,
              best_price = 9.5, position = 51\<rparr>"

definition item_C :: ItemInfo where
  "item_C = \<lparr>item_id = ''3'', market_hash_name = ''C'', current_price = 10,
              best_price = 9.5, position = 51\<rparr>"


text \<open>The world after \<open>k\<close> failed attempts of a request, each followed by the wait of
  ten seconds.\<close>

definition after_retries :: "request \<Rightarrow> nat \<Rightarrow> world \<Rightarrow> world" where
  "after_retries req k w =
     w\<lparr>requests_made := requests_made w + k,
       trace := trace w @ concat (replicate k [Http_get req, Sleep 10])\<rparr>"

text \<open>A response that reports the rate-limit error: not a success, and its error text is
  \<^verbatim>\<open>too_often\<close>.\<close>

definition rate_limited :: "response \<Rightarrow> bool" where
  "rate_limited r = (\<not> get_success r \<and> get_error r = ''too_often'')"

text \<open>The request that submits 9.49 for listing \<open>B\<close>.\<close>

definition set_price_B :: request where
  "set_price_B =
     \<lparr>endpoint = ''set-price'',
      params = [(''item_id'', PStr ''2''), (''price'', PInt 9490), (''cur'', PStr ''USD''),
                (''key'', PStr ''key'')]\<rparr>"

text \<open>A single listing \<open>E\<close> at 5.00, a marketplace with no offer for it, and a
  marketplace whose offer search cannot be reached.\<close>

definition one_listing :: listing where
  "one_listing =
     \<lparr>l_item_id = Some ''7'', l_market_hash_name = Some ''E'', l_price = Some 5, l_status = Some 1\<rparr>"

definition no_offers_transport :: "nat \<Rightarrow> request \<Rightarrow> http_outcome" where
  "no_offers_transport n req =
     (if endpoint req = ''items'' then Returned (ok_response\<lparr>items := Some [one_listing]\<rparr>)
      else Returned (ok_response\<lparr>data := Some []\<rparr>))"

definition no_offers_env :: env where
  "no_offers_env =
     \<lparr>api_key = ''key'', transport = no_offers_transport, operator_confirms = (\<lambda>n. True)\<rparr>"

definition search_down_transport :: "nat \<Rightarrow> request \<Rightarrow> http_outcome" where
  "search_down_transport n req =
     (if endpoint req = ''items'' then Returned (ok_response\<lparr>items := Some [one_listing]\<rparr>)
      else ConnectionError ''connection refused'')"

definition search_down_env :: env where
  "search_down_env =
     \<lparr>api_key = ''key'', transport = search_down_transport, operator_confirms = (\<lambda>n. True)\<rparr>"

definition item_E :: ItemInfo where
  "item_E = \<lparr>item_id = ''7'', market_hash_name = ''E'', current_price = 5,
              best_price = 5, position = 1\<rparr>"

text \<open>The description of a listing whose best price is its own price.\<close>

definition own_price_info :: "listing \<Rightarrow> ItemInfo" where
  "own_price_info it =
     \<lparr>item_id = get_item_id it, market_hash_name = get_market_hash_name it,
      current_price = get_price it, best_price = get_price it, position = 1\<rparr>"

definition items_request :: request where
  "items_request = \<lparr>endpoint = ''items'', params = [(''v'', PStr ''2''), (''key'', PStr ''key'')]\<rparr>"

definition after_items :: world where
  "after_items = \<lparr>requests_made = 1, lines_read = 0, trace = [Http_get items_request]\<rparr>"

text \<open>What the branch a listing takes adds to the statistics.\<close>

fun count_branch :: "branch \<Rightarrow> stats \<Rightarrow> stats" where
  "count_branch Already_first st = st\<lparr>first_position := first_position st + 1\<rparr>"
| "count_branch Price_updated st = st\<lparr>updated := updated st + 1\<rparr>"
| "count_branch Update_failed st = st\<lparr>skipped := skipped st + 1\<rparr>"
| "count_branch Below_min st = st\<lparr>skipped := skipped st + 1, below_min := below_min st + 1\<rparr>"
| "count_branch Not_lower st = st\<lparr>skipped := skipped st + 1\<rparr>"

section \<open>Properties\<close>

declare make_request_attempt.simps [simp del]
declare update_attempt.simps [simp del]

subsection \<open>Rounding\<close>

lemma py_round_nearest: "\<bar>real_of_int (py_round x) - x\<bar> \<le> 1 / 2"
  unfolding py_round_def Let_def
  by (auto simp: abs_if) linarith+

lemma py_round_of_int: "py_round (real_of_int n) = n"
  by (simp add: py_round_def)

lemma py_round_mono:
  assumes "s \<le> t"
  shows "py_round s \<le> py_round t"
proof (cases "s = t")
  case True
  then show ?thesis by simp
next
  case False
  then have lt: "s < t" using assms by simp
  have "real_of_int (py_round s) - real_of_int (py_round t) < 1"
    using py_round_nearest [of s] py_round_nearest [of t] lt by linarith
  then have "real_of_int (py_round s - py_round t) < real_of_int 1"
    by simp
  then have "py_round s - py_round t < 1"
    by (simp only: of_int_less_iff)
  then show ?thesis by simp
qed

lemma two_to_powr: "two_to k = 2 powr real_of_int k"
proof (cases "0 \<le> k")
  case True
  then show ?thesis
    by (simp add: two_to_def powr_realpow [symmetric])
next
  case False
  then have r: "real (nat (- k)) = - real_of_int k" by simp
  have "(2::real) ^ nat (- k) = 2 powr real (nat (- k))"
    by (simp add: powr_realpow)
  then have "(2::real) ^ nat (- k) = 2 powr (- real_of_int k)"
    by (simp only: r)
  with False show ?thesis
    by (simp add: two_to_def powr_minus_divide)
qed

lemma two_to_pos [simp]: "0 < two_to k"
  by (simp add: two_to_powr)

text \<open>How a number is rounded once the power of two below it is known.\<close>

lemma round_double_in_binade:
  assumes "two_to k \<le> \<bar>x\<bar>" "\<bar>x\<bar> < two_to (k + 1)" "- 1022 \<le> k"
  shows "round_double x = real_of_int (py_round (x / two_to (k - 52))) * two_to (k - 52)"
proof -
  have pos: "0 < \<bar>x\<bar>"
    using assms(1) two_to_pos [of k] by linarith
  have "\<lfloor>log 2 \<bar>x\<bar>\<rfloor> = k"
    using assms(1,2) pos by (simp add: floor_log_eq_powr_iff two_to_powr)
  then have "ulp_exponent x = k - 52"
    using assms(3) by (simp add: ulp_exponent_def)
  then show ?thesis
    using pos by (simp add: round_double_def Let_def)
qed

lemma round_double_nonneg: "0 \<le> x \<Longrightarrow> 0 \<le> round_double x"
proof -
  assume x: "0 \<le> x"
  have "0 \<le> x / two_to (ulp_exponent x)"
    by (rule divide_nonneg_pos [OF x two_to_pos])
  then have "py_round 0 \<le> py_round (x / two_to (ulp_exponent x))"
    by (rule py_round_mono)
  then have "0 \<le> real_of_int (py_round (x / two_to (ulp_exponent x)))"
    by (simp add: py_round_def)
  moreover have "0 \<le> two_to (ulp_exponent x)"
    using two_to_pos [of "ulp_exponent x"] by linarith
  ultimately have "0 \<le> real_of_int (py_round (x / two_to (ulp_exponent x))) * two_to (ulp_exponent x)"
    by (rule mult_nonneg_nonneg)
  then show ?thesis
    by (simp add: round_double_def Let_def)
qed

text \<open>Rounding to the multiples of one unit keeps the order and leaves a multiple alone.\<close>

lemma grid_mono:
  "0 < u \<Longrightarrow> s \<le> t \<Longrightarrow>
   real_of_int (py_round (s / u)) * u \<le> real_of_int (py_round (t / u)) * u"
  by (simp add: py_round_mono divide_right_mono)

lemma grid_fixed:
  assumes "0 \<le> j - k"
  shows "real_of_int (py_round (two_to j / two_to k)) * two_to k = two_to j"
proof -
  have "two_to j / two_to k = 2 powr real_of_int (j - k)"
    by (simp add: two_to_powr powr_diff)
  also have "\<dots> = 2 powr real (nat (j - k))"
    using assms by simp
  also have "\<dots> = real_of_int (2 ^ nat (j - k))"
    by (simp add: powr_realpow)
  finally have q: "two_to j / two_to k = real_of_int (2 ^ nat (j - k))" .
  have "real_of_int (py_round (two_to j / two_to k)) = two_to j / two_to k"
    unfolding q by (simp only: py_round_of_int)
  moreover have "two_to k \<noteq> 0"
    using two_to_pos [of k] by linarith
  ultimately show ?thesis by simp
qed

text \<open>Rounding keeps the order of two numbers that are not negative: when their units
  differ, a power of two lies between them, and it is a multiple of both units.\<close>

lemma round_double_mono:
  assumes "0 \<le> x" "x \<le> y"
  shows "round_double x \<le> round_double y"
proof (cases "x = 0")
  case True
  then show ?thesis
    using round_double_nonneg [of y] assms by (simp add: round_double_def)
next
  case False
  then have x: "0 < x" and y: "0 < y" using assms by auto
  let ?ex = "\<lfloor>log 2 x\<rfloor>" and ?ey = "\<lfloor>log 2 y\<rfloor>"
  let ?kx = "ulp_exponent x" and ?ky = "ulp_exponent y"
  have rx: "round_double x = real_of_int (py_round (x / two_to ?kx)) * two_to ?kx"
    using x by (simp add: round_double_def Let_def)
  have ry: "round_double y = real_of_int (py_round (y / two_to ?ky)) * two_to ?ky"
    using y by (simp add: round_double_def Let_def)
  have e: "?ex \<le> ?ey"
    using x assms(2) by (intro floor_mono) simp
  have kx: "?kx = max (?ex - 52) (- 1074)" and ky: "?ky = max (?ey - 52) (- 1074)"
    using x y by (simp_all add: ulp_exponent_def)
  have k: "?kx \<le> ?ky" using e kx ky by simp
  show ?thesis
  proof (cases "?kx = ?ky")
    case True
    show ?thesis
      unfolding rx ry True by (rule grid_mono) (use assms in simp_all)
  next
    case False
    then have lt: "?kx < ?ky" using k by simp
    then have ky': "?ky = ?ey - 52" and elt: "?ex < ?ey"
      using kx ky by (auto simp: max_def split: if_splits)
    have xb: "x < two_to ?ey"
    proof -
      have "x < 2 powr (real_of_int ?ex + 1)"
        using x floor_log_eq_powr_iff [of x 2 ?ex] by simp
      also have "\<dots> \<le> 2 powr real_of_int ?ey"
        using elt by (simp add: powr_mono)
      finally show ?thesis by (simp add: two_to_powr)
    qed
    have yb: "two_to ?ey \<le> y"
      using y floor_log_eq_powr_iff [of y 2 ?ey] by (simp add: two_to_powr)
    have "round_double x \<le> real_of_int (py_round (two_to ?ey / two_to ?kx)) * two_to ?kx"
      unfolding rx by (rule grid_mono) (use xb in simp_all)
    also have "\<dots> = two_to ?ey"
      using lt ky' by (intro grid_fixed) simp
    also have "\<dots> = real_of_int (py_round (two_to ?ey / two_to ?ky)) * two_to ?ky"
      using ky' by (intro grid_fixed [symmetric]) simp
    also have "\<dots> \<le> round_double y"
      unfolding ry by (rule grid_mono) (use yb in simp_all)
    finally show ?thesis .
  qed
qed

text \<open>The doubles that Python reads from \<open>0.01\<close>, \<open>1.24\<close>, \<open>9.5\<close> and \<open>9.53\<close>.\<close>

lemma round_double_001: "round_double 0.01 = 5764607523034235 / 2 ^ 59"
  by (subst round_double_in_binade [where k = "-7"]) (simp_all add: py_round_def two_to_def)

lemma round_double_124: "round_double 1.24 = 5584463537939415 / 2 ^ 52"
  by (subst round_double_in_binade [where k = 0]) (simp_all add: py_round_def two_to_def)

lemma round_double_95: "round_double 9.5 = 9.5"
  by (subst round_double_in_binade [where k = 3]) (simp_all add: py_round_def two_to_def)

lemma round_double_953: "round_double 9.53 = 5364913056105103 / 2 ^ 49"
  by (subst round_double_in_binade [where k = 3]) (simp_all add: py_round_def two_to_def)

subsection \<open>Position\<close>

lemma position_124: "calculate_position (5584463537939415 / 2 ^ 52) 1 = 25"
proof -
  have d: "float_sub (5584463537939415 / 2 ^ 52) 1 = 1080863910568919 / 2 ^ 52"
    unfolding float_sub_def
    by (subst round_double_in_binade [where k = "-3"]) (simp_all add: py_round_def two_to_def)
  have q: "float_div (1080863910568919 / 2 ^ 52) (5764607523034235 / 2 ^ 59) = 24"
    unfolding float_div_def
    by (subst round_double_in_binade [where k = 4]) (simp_all add: py_round_def two_to_def)
  show ?thesis
    unfolding calculate_position_def Let_def round_double_001 d q by (simp add: py_int_def)
qed

lemma position_953: "calculate_position (5364913056105103 / 2 ^ 49) 9.5 = 3"
proof -
  have d: "float_sub (5364913056105103 / 2 ^ 49) 9.5 = 16888498602639 / 2 ^ 49"
    unfolding float_sub_def
    by (subst round_double_in_binade [where k = "-6"]) (simp_all add: py_round_def two_to_def)
  have q: "float_div (16888498602639 / 2 ^ 49) (5764607523034235 / 2 ^ 59)
             = 422212465065975 / 2 ^ 47"
    unfolding float_div_def
    by (subst round_double_in_binade [where k = 1]) (simp_all add: py_round_def two_to_def)
  show ?thesis
    unfolding calculate_position_def Let_def round_double_001 d q by (simp add: py_int_def)
qed

lemma position_10: "calculate_position 10 9.5 = 51"
proof -
  have d: "float_sub 10 9.5 = 1 / 2"
    unfolding float_sub_def
    by (subst round_double_in_binade [where k = "-1"]) (simp_all add: py_round_def two_to_def)
  have q: "float_div (1 / 2) (5764607523034235 / 2 ^ 59) = 50"
    unfolding float_div_def
    by (subst round_double_in_binade [where k = 5]) (simp_all add: py_round_def two_to_def)
  show ?thesis
    unfolding calculate_position_def Let_def round_double_001 d q by (simp add: py_int_def)
qed

lemma position_equal: "calculate_position c c = 1"
  by (simp add: calculate_position_def)

text \<open>
  Claim C4, as stated, fails on its closed formula. For the double that Python reads from
  1.24 against a best price of 1, \<^verbatim>\<open>_calculate_position\<close> returns 25, while
  \<open>max 2 (\<lfloor>(current - best) / 0.01\<rfloor> + 1)\<close> on the same two numbers is 24: the double is
  a little below 1.24, and the rounded quotient is exactly 24. For the doubles read from
  9.53 and 9.50 it returns 3, while the formula on the prices 9.53 and 9.50 gives 4.
\<close>

theorem calculate_position_formula_counterexample:
  "round_double 1.24 < 1.24 \<and>
   calculate_position (round_double 1.24) 1 = 25 \<and>
   max 2 (\<lfloor>(round_double 1.24 - 1) / 0.01\<rfloor> + 1) = 24 \<and>
   calculate_position (round_double 1.24) 1 \<noteq> max 2 (\<lfloor>(round_double 1.24 - 1) / 0.01\<rfloor> + 1) \<and>
   calculate_position (round_double 9.53) (round_double 9.5) = 3 \<and>
   max 2 (\<lfloor>(9.53 - 9.5) / 0.01 :: real\<rfloor> + 1) = 4"
proof -
  have a: "calculate_position (round_double 1.24) 1 = 25"
    unfolding round_double_124 by (rule position_124)
  have b: "max 2 (\<lfloor>(round_double 1.24 - 1) / 0.01\<rfloor> + 1) = 24"
    unfolding round_double_124 by simp
  have c: "calculate_position (round_double 9.53) (round_double 9.5) = 3"
    unfolding round_double_953 round_double_95 by (rule position_953)
  have d: "max 2 (\<lfloor>(9.53 - 9.5) / 0.01 :: real\<rfloor> + 1) = 4"
    by simp
  have e: "round_double 1.24 < 1.24"
    unfolding round_double_124 by simp
  show ?thesis
    using a b c d e by simp
qed

text \<open>
  Claim C4, amended. The computed position is 1 exactly when the current price is at most
  the best market price. Otherwise it is \<open>max 2 (\<lfloor>q\<rfloor> + 1)\<close>, which is at least 2, where
  \<open>q\<close> is the quotient as the program computes it in binary floating point: the
  difference of the two prices rounded to a double, divided by the double nearest to
  0.01, and rounded again. For a fixed best price a higher current price never gives a
  lower position.
\<close>

theorem calculate_position_spec:
  "(calculate_position c b = 1 \<longleftrightarrow> c \<le> b) \<and>
   (b < c \<longrightarrow>
      calculate_position c b
        = max 2 (\<lfloor>float_div (float_sub c b) (round_double 0.01)\<rfloor> + 1) \<and>
      2 \<le> calculate_position c b) \<and>
   (c \<le> c' \<longrightarrow> calculate_position c b \<le> calculate_position c' b)"
proof (intro conjI impI)
  show "(calculate_position c b = 1) = (c \<le> b)"
    by (simp add: calculate_position_def Let_def max_def)
next
  assume "b < c"
  then have "0 \<le> float_sub c b"
    unfolding float_sub_def by (intro round_double_nonneg) simp
  then have "0 \<le> float_div (float_sub c b) (round_double 0.01)"
    unfolding float_div_def round_double_001 by (intro round_double_nonneg) simp
  then show "calculate_position c b
        = max 2 (\<lfloor>float_div (float_sub c b) (round_double 0.01)\<rfloor> + 1)"
    using \<open>b < c\<close> by (simp add: calculate_position_def py_int_def Let_def)
next
  assume "b < c"
  then show "2 \<le> calculate_position c b"
    by (simp add: calculate_position_def Let_def)
next
  assume le: "c \<le> c'"
  show "calculate_position c b \<le> calculate_position c' b"
  proof (cases "c \<le> b")
    case True
    have "1 \<le> calculate_position c' b"
      by (simp add: calculate_position_def Let_def le_max_iff_disj)
    with True show ?thesis by (simp add: calculate_position_def)
  next
    case False
    then have bc: "b < c" "b < c'" using le by auto
    have s: "float_sub c b \<le> float_sub c' b"
      unfolding float_sub_def using bc le by (intro round_double_mono) simp_all
    have s0: "0 \<le> float_sub c b"
      unfolding float_sub_def using bc by (intro round_double_nonneg) simp
    have q: "float_div (float_sub c b) (round_double 0.01)
               \<le> float_div (float_sub c' b) (round_double 0.01)"
      unfolding float_div_def round_double_001 using s s0
      by (intro round_double_mono) (simp_all add: divide_right_mono)
    have q0: "0 \<le> float_div (float_sub c b) (round_double 0.01)"
      unfolding float_div_def round_double_001 using s0 by (intro round_double_nonneg) simp
    have q0': "0 \<le> float_div (float_sub c' b) (round_double 0.01)"
      using q q0 by linarith
    have "\<lfloor>float_div (float_sub c b) (round_double 0.01)\<rfloor>
            \<le> \<lfloor>float_div (float_sub c' b) (round_double 0.01)\<rfloor>"
      using q by (rule floor_mono)
    then show ?thesis
      using False bc q0 q0' by (simp add: calculate_position_def py_int_def Let_def)
  qed
qed

theorem calculate_position_spec_witness:
  "(9.5 :: real) < 10 \<and> (10 :: real) \<le> 10.25 \<and>
   calculate_position 10 9.5 = 51 \<and>
   max 2 (\<lfloor>float_div (float_sub 10 9.5) (round_double 0.01)\<rfloor> + 1) = 51 \<and>
   calculate_position 9.5 9.5 = 1 \<and>
   calculate_position 10 9.5 \<le> calculate_position 10.25 9.5"
  using calculate_position_spec [of 10 "9.5" "10.25"] calculate_position_spec [of "9.5" "9.5" "9.5"]
    position_10
  by simp

subsection \<open>The decision\<close>





subsection \<open>The request loop of the client\<close>

lemma attempt_returned:
  "transport e (requests_made w) req = Returned body \<Longrightarrow>
   make_request_attempt e req n a w =
     (body, emit (Http_get req) (w\<lparr>requests_made := requests_made w + 1\<rparr>))"
  by (subst make_request_attempt.simps) (simp add: session_get_def)

lemma attempt_other:
  "transport e (requests_made w) req = RequestException msg \<Longrightarrow>
   make_request_attempt e req n a w =
     (failure msg, emit (Http_get req) (w\<lparr>requests_made := requests_made w + 1\<rparr>))"
  by (subst make_request_attempt.simps) (simp add: session_get_def)

lemma attempt_transient_last:
  "transient (transport e (requests_made w) req) \<Longrightarrow> \<not> a < n - 1 \<Longrightarrow>
   make_request_attempt e req n a w =
     (failure (message (transport e (requests_made w) req)),
      emit (Http_get req) (w\<lparr>requests_made := requests_made w + 1\<rparr>))"
  by (subst make_request_attempt.simps, cases "transport e (requests_made w) req")
     (simp_all add: session_get_def)

lemma attempt_transient_retry:
  "transient (transport e (requests_made w) req) \<Longrightarrow> a < n - 1 \<Longrightarrow>
   make_request_attempt e req n a w =
     make_request_attempt e req n (a + 1)
       (sleep 10 (emit (Http_get req) (w\<lparr>requests_made := requests_made w + 1\<rparr>)))"
  by (subst make_request_attempt.simps, cases "transport e (requests_made w) req")
     (simp_all add: session_get_def)

lemma attempt_transient_prefix:
  "(\<And>j. j < k \<Longrightarrow> transient (transport e (requests_made w + j) req)) \<Longrightarrow> a + k < n \<Longrightarrow>
   make_request_attempt e req n a w =
     make_request_attempt e req n (a + k) (after_retries req k w)"
proof (induction k arbitrary: a w)
  case 0
  then show ?case by (simp add: after_retries_def)
next
  case (Suc k)
  let ?w1 = "sleep 10 (emit (Http_get req) (w\<lparr>requests_made := requests_made w + 1\<rparr>))"
  have t0: "transient (transport e (requests_made w) req)"
    using Suc.prems(1)[of 0] by simp
  have step: "make_request_attempt e req n a w = make_request_attempt e req n (a + 1) ?w1"
    using t0 Suc.prems(2) by (intro attempt_transient_retry) auto
  have rest: "make_request_attempt e req n (a + 1) ?w1 =
      make_request_attempt e req n (a + 1 + k) (after_retries req k ?w1)"
  proof (rule Suc.IH)
    fix j assume "j < k"
    then have "transient (transport e (requests_made w + Suc j) req)"
      using Suc.prems(1)[of "Suc j"] by simp
    then show "transient (transport e (requests_made ?w1 + j) req)"
      by (simp add: sleep_def emit_def)
  next
    show "a + 1 + k < n" using Suc.prems(2) by simp
  qed
  have "after_retries req k ?w1 = after_retries req (Suc k) w"
    by (simp add: after_retries_def sleep_def emit_def)
  with step rest show ?case by simp
qed



lemma after_retries_requests [simp]:
  "requests_made (after_retries req k w) = requests_made w + k"
  by (simp add: after_retries_def)




subsection \<open>Submitting a price\<close>

lemma update_attempt_success:
  "set_price e (item_id item) p ''USD'' w = (r, w1) \<Longrightarrow> get_success r \<Longrightarrow>
   update_attempt e item p a w = (True, w1)"
  by (subst update_attempt.simps) simp

lemma update_attempt_retry:
  "set_price e (item_id item) p ''USD'' w = (r, w1) \<Longrightarrow> rate_limited r \<Longrightarrow> a < 2 \<Longrightarrow>
   update_attempt e item p a w = update_attempt e item p (a + 1) (sleep 10 w1)"
  by (subst update_attempt.simps) (simp add: rate_limited_def)

lemma update_attempt_give_up:
  "set_price e (item_id item) p ''USD'' w = (r, w1) \<Longrightarrow> \<not> get_success r \<Longrightarrow>
   get_error r \<noteq> ''too_often'' \<or> \<not> a < 2 \<Longrightarrow>
   update_attempt e item p a w = (False, emit (Print_full_response r) w1)"
  by (subst update_attempt.simps) auto

lemma make_request_returned:
  "transport e (requests_made w) (request_of e ep ps) = Returned body \<Longrightarrow>
   make_request e ep ps w =
     (body, emit (Http_get (request_of e ep ps)) (w\<lparr>requests_made := requests_made w + 1\<rparr>))"
  by (simp add: make_request_def attempt_returned)

lemma make_request_other:
  "transport e (requests_made w) (request_of e ep ps) = RequestException msg \<Longrightarrow>
   make_request e ep ps w =
     (failure msg, emit (Http_get (request_of e ep ps)) (w\<lparr>requests_made := requests_made w + 1\<rparr>))"
  by (simp add: make_request_def attempt_other)

lemma update_item_price_submits:
  "auto_confirm \<or> operator_confirms e (lines_read w) \<Longrightarrow>
   update_item_price e item p auto_confirm w =
     update_attempt e item p 0 (if auto_confirm then w else snd (input_confirm e w))"
  by (auto simp: update_item_price_def input_confirm_def Let_def)

text \<open>
  Claim C5. Once a submission goes ahead (automatic confirmation, or the operator said
  yes): if each of the three requests is answered with the rate-limit error, exactly
  three requests are made, with a wait of ten seconds after the first and after the
  second, the full response is printed and the result is \<open>False\<close>; nothing follows.
  The same holds when the three calls of \<^verbatim>\<open>set_price\<close> return that error by any route.
  An unsuccessful response with any other error ends the submission at once, at the
  first attempt or at a later one: the response is printed, the result is \<open>False\<close>, and
  there is no wait and no further call.
\<close>

theorem update_item_price_retry_policy:
  assumes go: "auto_confirm \<or> operator_confirms e (lines_read w)"
    and w0: "w0 = (if auto_confirm then w else snd (input_confirm e w))"
    and rq: "rq = request_of e ''set-price'' (set_price_params (item_id item) p ''USD'')"
  shows
    "((\<forall>k<3. transport e (requests_made w0 + k) rq = Returned (body k) \<and> rate_limited (body k)) \<longrightarrow>
        update_item_price e item p auto_confirm w =
          (False,
           w0\<lparr>requests_made := requests_made w0 + 3,
              trace := trace w0 @ [Http_get rq, Sleep 10, Http_get rq, Sleep 10, Http_get rq,
                                   Print_full_response (body 2)]\<rparr>)) \<and>
     (set_price e (item_id item) p ''USD'' w0 = (r1, w1) \<and> rate_limited r1 \<and>
      set_price e (item_id item) p ''USD'' (sleep 10 w1) = (r2, w2) \<and> rate_limited r2 \<and>
      set_price e (item_id item) p ''USD'' (sleep 10 w2) = (r3, w3) \<and> rate_limited r3 \<longrightarrow>
        update_item_price e item p auto_confirm w = (False, emit (Print_full_response r3) w3)) \<and>
     (set_price e (item_id item) p ''USD'' w0 = (r1, w1) \<and> \<not> get_success r1 \<and>
      get_error r1 \<noteq> ''too_often'' \<longrightarrow>
        update_item_price e item p auto_confirm w = (False, emit (Print_full_response r1) w1)) \<and>
     (set_price e (item_id item) p ''USD'' w' = (r, w'') \<and> \<not> get_success r \<and>
      get_error r \<noteq> ''too_often'' \<longrightarrow>
        update_attempt e item p attempt w' = (False, emit (Print_full_response r) w''))"
proof -
  have start: "update_item_price e item p auto_confirm w = update_attempt e item p 0 w0"
    using go w0 by (simp add: update_item_price_submits)
  have three: "update_attempt e item p 0 w0 = (False, emit (Print_full_response r3) w3)"
    if "set_price e (item_id item) p ''USD'' w0 = (r1, w1)" "rate_limited r1"
       "set_price e (item_id item) p ''USD'' (sleep 10 w1) = (r2, w2)" "rate_limited r2"
       "set_price e (item_id item) p ''USD'' (sleep 10 w2) = (r3, w3)" "rate_limited r3"
    for r1 w1 r2 w2 r3 w3
  proof -
    have "update_attempt e item p 0 w0 = update_attempt e item p 1 (sleep 10 w1)"
      using update_attempt_retry [OF that(1,2), of 0] by simp
    also have "\<dots> = update_attempt e item p 2 (sleep 10 w2)"
      using update_attempt_retry [OF that(3,4), of 1] by (simp add: numeral_2_eq_2)
    also have "\<dots> = (False, emit (Print_full_response r3) w3)"
      using that(6) by (intro update_attempt_give_up [OF that(5)]) (auto simp: rate_limited_def)
    finally show ?thesis .
  qed
  show ?thesis
  proof (intro conjI impI)
    assume all: "\<forall>k<3. transport e (requests_made w0 + k) rq = Returned (body k) \<and> rate_limited (body k)"
    let ?w1 = "emit (Http_get rq) (w0\<lparr>requests_made := requests_made w0 + 1\<rparr>)"
    let ?w2 = "emit (Http_get rq) ((sleep 10 ?w1)\<lparr>requests_made := requests_made w0 + 2\<rparr>)"
    let ?w3 = "emit (Http_get rq) ((sleep 10 ?w2)\<lparr>requests_made := requests_made w0 + 3\<rparr>)"
    have s1: "set_price e (item_id item) p ''USD'' w0 = (body 0, ?w1)"
      using all [rule_format, of 0] unfolding set_price_def rq
      by (subst make_request_returned [where body = "body 0"]) auto
    have s2: "set_price e (item_id item) p ''USD'' (sleep 10 ?w1) = (body 1, ?w2)"
      using all [rule_format, of 1] unfolding set_price_def rq
      by (subst make_request_returned [where body = "body 1"])
         (auto simp: sleep_def emit_def)
    have s3: "set_price e (item_id item) p ''USD'' (sleep 10 ?w2) = (body 2, ?w3)"
      using all [rule_format, of 2] unfolding set_price_def rq
      by (subst make_request_returned [where body = "body 2"])
         (auto simp: sleep_def emit_def)
    have "update_attempt e item p 0 w0 = (False, emit (Print_full_response (body 2)) ?w3)"
      using all by (intro three [OF s1 _ s2 _ s3]) auto
    then show "update_item_price e item p auto_confirm w =
          (False,
           w0\<lparr>requests_made := requests_made w0 + 3,
              trace := trace w0 @ [Http_get rq, Sleep 10, Http_get rq, Sleep 10, Http_get rq,
                                   Print_full_response (body 2)]\<rparr>)"
      by (simp add: start sleep_def emit_def)
  next
    assume "set_price e (item_id item) p ''USD'' w0 = (r1, w1) \<and> rate_limited r1 \<and>
      set_price e (item_id item) p ''USD'' (sleep 10 w1) = (r2, w2) \<and> rate_limited r2 \<and>
      set_price e (item_id item) p ''USD'' (sleep 10 w2) = (r3, w3) \<and> rate_limited r3"
    then show "update_item_price e item p auto_confirm w = (False, emit (Print_full_response r3) w3)"
      using three start by simp
  next
    assume "set_price e (item_id item) p ''USD'' w0 = (r1, w1) \<and> \<not> get_success r1 \<and>
      get_error r1 \<noteq> ''too_often''"
    then show "update_item_price e item p auto_confirm w = (False, emit (Print_full_response r1) w1)"
      using start by (simp add: update_attempt_give_up)
  next
    assume "set_price e (item_id item) p ''USD'' w' = (r, w'') \<and> \<not> get_success r \<and>
      get_error r \<noteq> ''too_often''"
    then show "update_attempt e item p attempt w' = (False, emit (Print_full_response r) w'')"
      by (simp add: update_attempt_give_up)
  qed
qed


theorem update_item_price_retry_policy_witness:
  "transport too_often_env (requests_made start + 0) set_price_B = Returned too_often_response \<and>
   transport too_often_env (requests_made start + 1) set_price_B = Returned too_often_response \<and>
   transport too_often_env (requests_made start + 2) set_price_B = Returned too_often_response \<and>
   rate_limited too_often_response \<and>
   update_item_price too_often_env item_B 9.49 True start =
     (False,
      \<lparr>requests_made = 3, lines_read = 0,
       trace = [Http_get set_price_B, Sleep 10, Http_get set_price_B, Sleep 10,
                Http_get set_price_B, Print_full_response too_often_response]\<rparr>)"
proof -
  have rq: "set_price_B =
      request_of too_often_env ''set-price'' (set_price_params (item_id item_B) 9.49 ''USD'')"
    by (simp add: set_price_B_def request_of_def set_price_params_def item_B_def
                  price_formatted_def py_round_def too_often_env_def)
  have h: "\<forall>k<3. transport too_often_env (requests_made start + k) set_price_B
             = Returned too_often_response \<and> rate_limited too_often_response"
    by (simp add: too_often_env_def rate_limited_def too_often_response_def
                  get_success_def get_error_def)
  from update_item_price_retry_policy
         [where auto_confirm = True and e = too_often_env and w = start and w0 = start
            and item = item_B and p = "9.49" and rq = set_price_B
            and body = "\<lambda>k. too_often_response", OF _ _ rq] h
  have "update_item_price too_often_env item_B 9.49 True start =
     (False,
      start\<lparr>requests_made := requests_made start + 3,
        trace := trace start @ [Http_get set_price_B, Sleep 10, Http_get set_price_B, Sleep 10,
                Http_get set_price_B, Print_full_response too_often_response]\<rparr>)"
    by simp
  moreover have "rate_limited too_often_response"
    by (simp add: rate_limited_def too_often_response_def get_success_def get_error_def)
  moreover have "transport too_often_env n set_price_B = Returned too_often_response" for n
    by (simp add: too_often_env_def)
  ultimately show ?thesis by (simp add: start_def)
qed

subsection \<open>Prices on the wire\<close>




subsection \<open>Listings without a usable best offer\<close>

lemma item_info_fallback:
  assumes "get_best_offer_for_item e (get_market_hash_name it) w = (price_info, w1)"
    and "\<not> (get_success price_info \<and> data_truthy price_info)"
  shows "item_info e it w =
           (own_price_info it, sleep 0.5 (emit (Print_no_prices (get_market_hash_name it)) w1))"
proof -
  have c: "(get_success price_info \<and> data_truthy price_info) = False"
    using assms(2) by simp
  show ?thesis
    using assms(1) by (simp add: item_info_def Let_def own_price_info_def position_equal c)
qed

lemma process_item_first:
  "position item = 1 \<Longrightarrow>
   process_item e cfg auto_confirm item (st, w) = (st\<lparr>first_position := first_position st + 1\<rparr>, w)"
  by (simp add: process_item_def)

lemma should_update_first:
  "position item = 1 \<Longrightarrow> should_update_price cfg item = (False, None)"
  by (simp add: should_update_price_def)

lemma own_price_info_first:
  "best_price (own_price_info it) = get_price it \<and>
   current_price (own_price_info it) = get_price it \<and>
   position (own_price_info it) = 1 \<and>
   should_update_price cfg (own_price_info it) = (False, None) \<and>
   process_item e cfg auto_confirm (own_price_info it) (st, w') =
     (st\<lparr>first_position := first_position st + 1\<rparr>, w')"
proof -
  have "position (own_price_info it) = 1" by (simp add: own_price_info_def)
  then show ?thesis
    by (simp add: process_item_first should_update_first) (simp add: own_price_info_def)
qed

lemma items_info_loop_append:
  "items_info_loop e (xs @ ys) w =
     (fst (items_info_loop e xs w) @ fst (items_info_loop e ys (snd (items_info_loop e xs w))),
      snd (items_info_loop e ys (snd (items_info_loop e xs w))))"
  by (induction xs arbitrary: w) (simp_all add: Let_def split_beta)

lemma items_info_loop_split:
  assumes "items_info_loop e pre w0 = (infos_pre, w1)"
    and "item_info e it w1 = (info, w2)"
  shows "items_info_loop e (pre @ it # post) w0 =
     (infos_pre @ info # fst (items_info_loop e post w2), snd (items_info_loop e post w2))"
  using assms by (simp add: items_info_loop_append Let_def split_beta)

lemma get_my_items_info_loop:
  assumes "get_items_on_sale e w = (resp, w0)" "get_success resp" "items resp = Some (x # xs)"
  shows "get_my_items_info e w = items_info_loop e (x # xs) w0"
  using assms by (simp add: get_my_items_info_def Let_def)

lemma cycle_listing_own_price:
  assumes "get_items_on_sale e w = (resp, w0)" "get_success resp"
    and "items resp = Some (pre @ it # post)"
    and "items_info_loop e pre w0 = (infos_pre, w1)"
    and "get_best_offer_for_item e (get_market_hash_name it) w1 = (price_info, w2)"
    and "\<not> (get_success price_info \<and> data_truthy price_info)"
  shows "get_my_items_info e w =
           (infos_pre @ own_price_info it
              # fst (items_info_loop e post
                     (sleep 0.5 (emit (Print_no_prices (get_market_hash_name it)) w2))),
            snd (items_info_loop e post
                  (sleep 0.5 (emit (Print_no_prices (get_market_hash_name it)) w2))))"
proof -
  obtain x xs where l: "pre @ it # post = x # xs" by (cases pre) auto
  have "get_my_items_info e w = items_info_loop e (pre @ it # post) w0"
    using get_my_items_info_loop [OF assms(1,2)] assms(3) l by simp
  also have "\<dots> = (infos_pre @ own_price_info it
              # fst (items_info_loop e post
                     (sleep 0.5 (emit (Print_no_prices (get_market_hash_name it)) w2))),
            snd (items_info_loop e post
                  (sleep 0.5 (emit (Print_no_prices (get_market_hash_name it)) w2))))"
    by (rule items_info_loop_split [OF assms(4) item_info_fallback [OF assms(5,6)]])
  finally show ?thesis .
qed

lemma make_request_exhausted:
  assumes "\<And>k. k < 3 \<Longrightarrow> transient (transport e (requests_made w + k) (request_of e ep ps))"
  shows "fst (make_request e ep ps w) =
           failure (message (transport e (requests_made w + 2) (request_of e ep ps)))"
proof -
  let ?r = "request_of e ep ps"
  have "make_request_attempt e ?r 3 0 w = make_request_attempt e ?r 3 (0 + 2) (after_retries ?r 2 w)"
    using assms by (intro attempt_transient_prefix) auto
  also have "fst \<dots> = failure (message (transport e (requests_made w + 2) ?r))"
    using assms [of 2] by (subst attempt_transient_last) (auto simp: after_retries_def)
  finally show ?thesis
    by (simp add: make_request_def max_retries_default_def)
qed

lemma no_offers_items:
  "get_items_on_sale no_offers_env start = (ok_response\<lparr>items := Some [one_listing]\<rparr>, after_items)"
proof -
  have r: "request_of no_offers_env ''items'' [(''v'', PStr ''2'')] = items_request"
    by (simp add: request_of_def no_offers_env_def items_request_def)
  have "make_request no_offers_env ''items'' [(''v'', PStr ''2'')] start =
      (ok_response\<lparr>items := Some [one_listing]\<rparr>, after_items)"
    by (subst make_request_returned [where body = "ok_response\<lparr>items := Some [one_listing]\<rparr>"])
       (simp_all add: request_of_def no_offers_env_def no_offers_transport_def items_request_def
          after_items_def start_def emit_def)
  then show ?thesis
    by (simp add: get_items_on_sale_def get_success_def ok_response_def get_status_def
          one_listing_def)
qed

lemma search_down_items:
  "get_items_on_sale search_down_env start = (ok_response\<lparr>items := Some [one_listing]\<rparr>, after_items)"
proof -
  have r: "request_of search_down_env ''items'' [(''v'', PStr ''2'')] = items_request"
    by (simp add: request_of_def search_down_env_def items_request_def)
  have "make_request search_down_env ''items'' [(''v'', PStr ''2'')] start =
      (ok_response\<lparr>items := Some [one_listing]\<rparr>, after_items)"
    by (subst make_request_returned [where body = "ok_response\<lparr>items := Some [one_listing]\<rparr>"])
       (simp_all add: request_of_def search_down_env_def search_down_transport_def items_request_def
          after_items_def start_def emit_def)
  then show ?thesis
    by (simp add: get_items_on_sale_def get_success_def ok_response_def get_status_def
          one_listing_def)
qed

lemma own_price_info_E: "own_price_info one_listing = item_E"
  by (simp add: own_price_info_def one_listing_def item_E_def get_item_id_def
        get_market_hash_name_def get_price_def)

text \<open>
  Claim C7. In a cycle, take any listing on sale whose offer query succeeds with an empty
  list of offers. \<^verbatim>\<open>get_my_items_info\<close> describes it, in its place, with its own current
  price as the best price and with position 1; \<^verbatim>\<open>should_update_price\<close> asks for no
  update, and the cycle's step counts it as first and leaves the world as it was, so
  nothing is sent for it.
\<close>

theorem no_offers_falls_back:
  assumes "get_items_on_sale e w = (resp, w0)" "get_success resp"
    and "items resp = Some (pre @ it # post)"
    and "items_info_loop e pre w0 = (infos_pre, w1)"
    and "get_best_offer_for_item e (get_market_hash_name it) w1 = (price_info, w2)"
    and "get_success price_info" "data price_info = Some []"
  shows "get_my_items_info e w =
           (infos_pre @ own_price_info it
              # fst (items_info_loop e post
                     (sleep 0.5 (emit (Print_no_prices (get_market_hash_name it)) w2))),
            snd (items_info_loop e post
                  (sleep 0.5 (emit (Print_no_prices (get_market_hash_name it)) w2)))) \<and>
         best_price (own_price_info it) = get_price it \<and>
         current_price (own_price_info it) = get_price it \<and>
         position (own_price_info it) = 1 \<and>
         should_update_price cfg (own_price_info it) = (False, None) \<and>
         process_item e cfg auto_confirm (own_price_info it) (st, w') =
           (st\<lparr>first_position := first_position st + 1\<rparr>, w')"
proof -
  have "\<not> (get_success price_info \<and> data_truthy price_info)"
    using assms(7) by (simp add: data_truthy_def)
  from cycle_listing_own_price [OF assms(1-5) this] own_price_info_first [of it cfg e auto_confirm st w']
  show ?thesis by blast
qed

theorem no_offers_falls_back_witness:
  "get_success (ok_response\<lparr>items := Some [one_listing]\<rparr>) \<and>
   get_success (fst (get_best_offer_for_item no_offers_env ''E'' after_items)) \<and>
   data (fst (get_best_offer_for_item no_offers_env ''E'' after_items)) = Some [] \<and>
   fst (get_my_items_info no_offers_env start) = [item_E] \<and>
   current_price item_E = 5 \<and> best_price item_E = 5 \<and> position item_E = 1 \<and>
   should_update_price three_config item_E = (False, None) \<and>
   process_item no_offers_env three_config True item_E (initial_stats 1, after_items) =
     ((initial_stats 1)\<lparr>first_position := 1\<rparr>, after_items)"
proof -
  let ?q = "get_best_offer_for_item no_offers_env ''E'' after_items"
  have s: "get_success (ok_response\<lparr>items := Some [one_listing]\<rparr>)"
    by (simp add: get_success_def ok_response_def)
  have n: "get_market_hash_name one_listing = ''E''"
    by (simp add: get_market_hash_name_def one_listing_def)
  have q: "fst ?q = ok_response\<lparr>data := Some []\<rparr>"
    unfolding get_best_offer_for_item_def
    by (subst make_request_returned [where body = "ok_response\<lparr>data := Some []\<rparr>"])
       (simp_all add: request_of_def no_offers_env_def no_offers_transport_def)
  have qs: "get_success (fst ?q)" and qd: "data (fst ?q) = Some []"
    by (simp_all add: q get_success_def ok_response_def)
  have p: "get_price one_listing = 5"
    by (simp add: get_price_def one_listing_def)
  have i: "items (ok_response\<lparr>items := Some [one_listing]\<rparr>) = Some ([] @ one_listing # [])"
    by simp
  have l: "items_info_loop no_offers_env [] after_items = ([], after_items)"
    by simp
  have g: "get_best_offer_for_item no_offers_env (get_market_hash_name one_listing) after_items =
      (fst ?q, snd ?q)"
    by (simp add: n)
  from no_offers_falls_back
         [where cfg = three_config and auto_confirm = True and st = "initial_stats 1"
            and w' = after_items,
          OF no_offers_items s i l g qs qd]
  show ?thesis
    using s qs qd by (simp add: n own_price_info_E p initial_stats_def)
qed

lemma search_down_query:
  "fst (get_best_offer_for_item search_down_env ''E'' after_items) = failure ''connection refused''"
  unfolding get_best_offer_for_item_def
  by (subst make_request_exhausted)
     (simp_all add: request_of_def search_down_env_def search_down_transport_def)

lemma search_down_infos:
  "get_my_items_info search_down_env start =
     ([item_E],
      sleep 0.5 (emit (Print_no_prices ''E'')
        (snd (get_best_offer_for_item search_down_env ''E'' after_items))))"
proof -
  let ?q = "get_best_offer_for_item search_down_env ''E'' after_items"
  have s: "get_success (ok_response\<lparr>items := Some [one_listing]\<rparr>)"
    by (simp add: get_success_def ok_response_def)
  have n: "get_market_hash_name one_listing = ''E''"
    by (simp add: get_market_hash_name_def one_listing_def)
  have i: "items (ok_response\<lparr>items := Some [one_listing]\<rparr>) = Some ([] @ one_listing # [])"
    by simp
  have l: "items_info_loop search_down_env [] after_items = ([], after_items)"
    by simp
  have g: "get_best_offer_for_item search_down_env (get_market_hash_name one_listing) after_items =
      (fst ?q, snd ?q)"
    by (simp add: n)
  have f: "\<not> (get_success (fst ?q) \<and> data_truthy (fst ?q))"
    by (simp add: search_down_query get_success_def failure_def)
  from cycle_listing_own_price [OF search_down_items s i l g f]
  show ?thesis
    by (simp add: n own_price_info_E)
qed

text \<open>
  Claim C9, as stated, fails: the failure is reported. In the cycle over the single
  listing \<open>E\<close>, whose offer query ends in a failed result, \<^verbatim>\<open>get_my_items_info\<close> prints
  the warning that the prices for \<open>E\<close> could not be obtained.
\<close>

theorem failed_query_warning_counterexample:
  "\<not> get_success (fst (get_best_offer_for_item search_down_env ''E'' after_items)) \<and>
   fst (get_my_items_info search_down_env start) = [item_E] \<and>
   Print_no_prices ''E'' \<in> set (trace (snd (get_my_items_info search_down_env start)))"
  by (simp add: search_down_infos search_down_query get_success_def failure_def
        sleep_def emit_def)

text \<open>
  Claim C9, amended. In a cycle, take any listing on sale whose offer query returns a
  result that is not a success. A warning that its prices could not be obtained is
  printed, and that is all that is reported: the listing stays in the list that
  \<^verbatim>\<open>get_my_items_info\<close> returns, in its place and with no mark of the failure; its best
  price is its own current price and its position is 1. \<^verbatim>\<open>should_update_price\<close> asks for
  no update, and the cycle's step counts it as first and leaves the world as it was, so
  no update is attempted for it.
\<close>

theorem failed_query_falls_back:
  assumes "get_items_on_sale e w = (resp, w0)" "get_success resp"
    and "items resp = Some (pre @ it # post)"
    and "items_info_loop e pre w0 = (infos_pre, w1)"
    and "get_best_offer_for_item e (get_market_hash_name it) w1 = (price_info, w2)"
    and "\<not> get_success price_info"
  shows "get_my_items_info e w =
           (infos_pre @ own_price_info it
              # fst (items_info_loop e post
                     (sleep 0.5 (emit (Print_no_prices (get_market_hash_name it)) w2))),
            snd (items_info_loop e post
                  (sleep 0.5 (emit (Print_no_prices (get_market_hash_name it)) w2)))) \<and>
         trace (snd (item_info e it w1)) =
           trace w2 @ [Print_no_prices (get_market_hash_name it), Sleep 0.5] \<and>
         best_price (own_price_info it) = get_price it \<and>
         current_price (own_price_info it) = get_price it \<and>
         position (own_price_info it) = 1 \<and>
         should_update_price cfg (own_price_info it) = (False, None) \<and>
         process_item e cfg auto_confirm (own_price_info it) (st, w') =
           (st\<lparr>first_position := first_position st + 1\<rparr>, w')"
proof -
  have f: "\<not> (get_success price_info \<and> data_truthy price_info)"
    using assms(6) by simp
  have "trace (snd (item_info e it w1)) =
      trace w2 @ [Print_no_prices (get_market_hash_name it), Sleep 0.5]"
    by (simp add: item_info_fallback [OF assms(5) f] sleep_def emit_def)
  with cycle_listing_own_price [OF assms(1-5) f]
    own_price_info_first [of it cfg e auto_confirm st w']
  show ?thesis by blast
qed

theorem failed_query_falls_back_witness:
  "get_success (ok_response\<lparr>items := Some [one_listing]\<rparr>) \<and>
   \<not> get_success (fst (get_best_offer_for_item search_down_env ''E'' after_items)) \<and>
   fst (get_my_items_info search_down_env start) = [item_E] \<and>
   current_price item_E = 5 \<and> best_price item_E = 5 \<and> position item_E = 1 \<and>
   should_update_price three_config item_E = (False, None) \<and>
   process_item search_down_env three_config True item_E (initial_stats 1, after_items) =
     ((initial_stats 1)\<lparr>first_position := 1\<rparr>, after_items)"
proof -
  let ?q = "get_best_offer_for_item search_down_env ''E'' after_items"
  have s: "get_success (ok_response\<lparr>items := Some [one_listing]\<rparr>)"
    by (simp add: get_success_def ok_response_def)
  have n: "get_market_hash_name one_listing = ''E''"
    by (simp add: get_market_hash_name_def one_listing_def)
  have q: "fst ?q = failure ''connection refused''"
    by (rule search_down_query)
  have qs: "\<not> get_success (fst ?q)"
    by (simp add: q get_success_def failure_def)
  have p: "get_price one_listing = 5"
    by (simp add: get_price_def one_listing_def)
  have i: "items (ok_response\<lparr>items := Some [one_listing]\<rparr>) = Some ([] @ one_listing # [])"
    by simp
  have l: "items_info_loop search_down_env [] after_items = ([], after_items)"
    by simp
  have g: "get_best_offer_for_item search_down_env (get_market_hash_name one_listing) after_items =
      (fst ?q, snd ?q)"
    by (simp add: n)
  from failed_query_falls_back
         [where cfg = three_config and auto_confirm = True and st = "initial_stats 1"
            and w' = after_items,
          OF search_down_items s i l g qs]
  show ?thesis
    using s qs by (simp add: n own_price_info_E p initial_stats_def)
qed

subsection \<open>The statistics of a cycle\<close>

lemma process_item_branch:
  "process_item e cfg auto_confirm item (st, w) =
     (count_branch (item_branch e cfg auto_confirm item w) st,
      snd (process_item e cfg auto_confirm item (initial_stats 0, w)))"
  by (auto simp: process_item_def item_branch_def Let_def split_beta
           split: prod.splits bool.splits option.splits)

lemma process_loop_branches:
  "fst (process_loop e cfg auto_confirm its (st, w)) =
     fold count_branch (branches e cfg auto_confirm its w) st"
proof (induction its arbitrary: st w)
  case Nil
  then show ?case by simp
next
  case (Cons item rest)
  show ?case
    by (subst process_loop.simps, subst process_item_branch) (simp add: Cons.IH)
qed

lemma length_branches [simp]: "length (branches e cfg auto_confirm its w) = length its"
  by (induction its arbitrary: w) simp_all

lemma fold_count_branch:
  "total_items (fold count_branch bs st) = total_items st \<and>
   first_position (fold count_branch bs st) = first_position st + int (count_list bs Already_first) \<and>
   updated (fold count_branch bs st) = updated st + int (count_list bs Price_updated) \<and>
   skipped (fold count_branch bs st) =
     skipped st + int (count_list bs Update_failed) + int (count_list bs Below_min)
       + int (count_list bs Not_lower) \<and>
   below_min (fold count_branch bs st) = below_min st + int (count_list bs Below_min)"
proof (induction bs arbitrary: st)
  case Nil
  then show ?case by simp
next
  case (Cons b bs)
  show ?case by (cases b) (simp_all add: Cons.IH)
qed

lemma length_by_branch:
  "length bs = count_list bs Already_first + count_list bs Price_updated
     + count_list bs Update_failed + count_list bs Below_min + count_list bs Not_lower"
proof (induction bs)
  case Nil
  then show ?case by simp
next
  case (Cons b bs)
  then show ?case by (cases b) simp_all
qed

lemma process_all_items_branches:
  assumes "get_my_items_info e w = (its, w1)"
  shows "fst (process_all_items e cfg auto_confirm w) =
     fold count_branch (branches e cfg auto_confirm its w1) (initial_stats (int (length its)))"
  using assms by (simp add: process_all_items_def process_loop_branches)

lemma stats_of_counts:
  assumes "get_my_items_info e w = (its, w1)"
    and "bs = branches e cfg auto_confirm its w1"
  shows "fst (process_all_items e cfg auto_confirm w) =
     \<lparr>total_items = int (length its),
      updated = int (count_list bs Price_updated),
      skipped = int (count_list bs Update_failed) + int (count_list bs Below_min)
                  + int (count_list bs Not_lower),
      first_position = int (count_list bs Already_first),
      below_min = int (count_list bs Below_min)\<rparr>"
  using fold_count_branch [of bs "initial_stats (int (length its))"]
  unfolding process_all_items_branches [OF assms(1)] assms(2) [symmetric]
  by (simp add: initial_stats_def)

lemma process_loop_append:
  "process_loop e cfg auto_confirm (xs @ ys) sw =
     process_loop e cfg auto_confirm ys (process_loop e cfg auto_confirm xs sw)"
  by (induction xs arbitrary: sw) simp_all

lemma process_item_one_counter:
  "total_items (fst (process_item e cfg auto_confirm item sw)) = total_items (fst sw) \<and>
   (first_position (fst (process_item e cfg auto_confirm item sw)) = first_position (fst sw) + 1 \<and>
      updated (fst (process_item e cfg auto_confirm item sw)) = updated (fst sw) \<and>
      skipped (fst (process_item e cfg auto_confirm item sw)) = skipped (fst sw)
    \<or>
    first_position (fst (process_item e cfg auto_confirm item sw)) = first_position (fst sw) \<and>
      updated (fst (process_item e cfg auto_confirm item sw)) = updated (fst sw) + 1 \<and>
      skipped (fst (process_item e cfg auto_confirm item sw)) = skipped (fst sw)
    \<or>
    first_position (fst (process_item e cfg auto_confirm item sw)) = first_position (fst sw) \<and>
      updated (fst (process_item e cfg auto_confirm item sw)) = updated (fst sw) \<and>
      skipped (fst (process_item e cfg auto_confirm item sw)) = skipped (fst sw) + 1)"
proof -
  obtain st w' where sw: "sw = (st, w')" by (cases sw)
  have step: "fst (process_item e cfg auto_confirm item (st, w')) =
      count_branch (item_branch e cfg auto_confirm item w') st"
    by (subst process_item_branch) simp
  show ?thesis
    unfolding sw step
    by (cases "item_branch e cfg auto_confirm item w'") simp_all
qed

text \<open>
  Claim C10. Let a cycle evaluate the listings \<open>its\<close>. The statistics that
  \<^verbatim>\<open>process_all_items\<close> returns have the number of listings as total, and each other
  counter is the number of listings that took the branches counting for it; so
  \<open>first_position + updated + skipped = total\<close> and \<open>below_min \<le> skipped\<close>. And for every
  listing of the cycle, wherever it stands in \<open>its\<close>: the run is the loop over the listings
  before it, the step for it, and the loop over the rest; that step leaves the total alone
  and adds one to exactly one of \<open>first_position\<close>, \<open>updated\<close> and \<open>skipped\<close>, leaving the
  other two as they were.
\<close>

theorem statistics_invariant:
  assumes "get_my_items_info e w = (its, w1)"
    and "s = fst (process_all_items e cfg auto_confirm w)"
    and "bs = branches e cfg auto_confirm its w1"
  shows "total_items s = int (length its) \<and> length bs = length its \<and>
         first_position s = int (count_list bs Already_first) \<and>
         updated s = int (count_list bs Price_updated) \<and>
         skipped s = int (count_list bs Update_failed) + int (count_list bs Below_min)
                       + int (count_list bs Not_lower) \<and>
         below_min s = int (count_list bs Below_min) \<and>
         first_position s + updated s + skipped s = total_items s \<and>
         below_min s \<le> skipped s \<and>
         (\<forall>pre item post. its = pre @ item # post \<longrightarrow>
            (let before = process_loop e cfg auto_confirm pre (initial_stats (int (length its)), w1);
                 after = process_item e cfg auto_confirm item before
             in process_all_items e cfg auto_confirm w = process_loop e cfg auto_confirm post after \<and>
                total_items (fst after) = total_items (fst before) \<and>
                (first_position (fst after) = first_position (fst before) + 1 \<and>
                   updated (fst after) = updated (fst before) \<and>
                   skipped (fst after) = skipped (fst before)
                 \<or>
                 first_position (fst after) = first_position (fst before) \<and>
                   updated (fst after) = updated (fst before) + 1 \<and>
                   skipped (fst after) = skipped (fst before)
                 \<or>
                 first_position (fst after) = first_position (fst before) \<and>
                   updated (fst after) = updated (fst before) \<and>
                   skipped (fst after) = skipped (fst before) + 1)))"
proof -
  have len: "length bs = length its" by (simp add: assms(3))
  note c = stats_of_counts [OF assms(1,3), folded assms(2)]
  have counts: "total_items s = int (length its) \<and>
      first_position s = int (count_list bs Already_first) \<and>
      updated s = int (count_list bs Price_updated) \<and>
      skipped s = int (count_list bs Update_failed) + int (count_list bs Below_min)
                    + int (count_list bs Not_lower) \<and>
      below_min s = int (count_list bs Below_min)"
    by (simp add: c)
  have sum: "first_position s + updated s + skipped s = total_items s"
    using counts length_by_branch [of bs] len by simp
  have low: "below_min s \<le> skipped s"
    using counts by simp
  have run: "process_all_items e cfg auto_confirm w =
      process_loop e cfg auto_confirm its (initial_stats (int (length its)), w1)"
    using assms(1) by (simp add: process_all_items_def)
  have each: "\<forall>pre item post. its = pre @ item # post \<longrightarrow>
            (let before = process_loop e cfg auto_confirm pre (initial_stats (int (length its)), w1);
                 after = process_item e cfg auto_confirm item before
             in process_all_items e cfg auto_confirm w = process_loop e cfg auto_confirm post after \<and>
                total_items (fst after) = total_items (fst before) \<and>
                (first_position (fst after) = first_position (fst before) + 1 \<and>
                   updated (fst after) = updated (fst before) \<and>
                   skipped (fst after) = skipped (fst before)
                 \<or>
                 first_position (fst after) = first_position (fst before) \<and>
                   updated (fst after) = updated (fst before) + 1 \<and>
                   skipped (fst after) = skipped (fst before)
                 \<or>
                 first_position (fst after) = first_position (fst before) \<and>
                   updated (fst after) = updated (fst before) \<and>
                   skipped (fst after) = skipped (fst before) + 1))"
  proof (intro allI impI)
    fix pre item post
    assume split: "its = pre @ item # post"
    let ?before = "process_loop e cfg auto_confirm pre (initial_stats (int (length its)), w1)"
    have "process_loop e cfg auto_confirm its (initial_stats (int (length its)), w1) =
        process_loop e cfg auto_confirm post (process_item e cfg auto_confirm item ?before)"
      by (subst (1) split) (simp add: process_loop_append)
    with run process_item_one_counter [of e cfg auto_confirm item ?before]
    show "let before = ?before;
              after = process_item e cfg auto_confirm item before
          in process_all_items e cfg auto_confirm w = process_loop e cfg auto_confirm post after \<and>
             total_items (fst after) = total_items (fst before) \<and>
             (first_position (fst after) = first_position (fst before) + 1 \<and>
                updated (fst after) = updated (fst before) \<and>
                skipped (fst after) = skipped (fst before)
              \<or>
              first_position (fst after) = first_position (fst before) \<and>
                updated (fst after) = updated (fst before) + 1 \<and>
                skipped (fst after) = skipped (fst before)
              \<or>
              first_position (fst after) = first_position (fst before) \<and>
                updated (fst after) = updated (fst before) \<and>
                skipped (fst after) = skipped (fst before) + 1)"
      by (simp add: Let_def)
  qed
  show ?thesis
    using counts len sum low each by blast
qed

lemma three_items:
  "get_items_on_sale three_env start = (ok_response\<lparr>items := Some three_listings\<rparr>, after_items)"
proof -
  have "make_request three_env ''items'' [(''v'', PStr ''2'')] start =
      (ok_response\<lparr>items := Some three_listings\<rparr>, after_items)"
    by (subst make_request_returned [where body = "ok_response\<lparr>items := Some three_listings\<rparr>"])
       (simp_all add: request_of_def three_env_def three_transport_def items_request_def
          after_items_def start_def emit_def)
  then show ?thesis
    by (simp add: get_items_on_sale_def get_success_def ok_response_def get_status_def
          three_listings_def)
qed

lemma three_best_offer:
  "fst (get_best_offer_for_item three_env name w) = ok_response\<lparr>data := Some [\<lparr>o_price = Some 9500\<rparr>]\<rparr>"
  unfolding get_best_offer_for_item_def
  by (subst make_request_returned [where body = "ok_response\<lparr>data := Some [\<lparr>o_price = Some 9500\<rparr>]\<rparr>"])
     (simp_all add: request_of_def three_env_def three_transport_def)

lemma three_item_info:
  "fst (item_info three_env it w) =
     \<lparr>item_id = get_item_id it, market_hash_name = get_market_hash_name it,
      current_price = get_price it, best_price = 9.5,
      position = calculate_position (get_price it) 9.5\<rparr>"
  using three_best_offer [of "get_market_hash_name it" w]
  by (simp add: item_info_def Let_def split_beta get_success_def data_truthy_def
        ok_response_def offer_best_price_def)

lemma three_infos:
  "fst (get_my_items_info three_env start) = [item_A, item_B, item_C]"
proof -
  have "get_my_items_info three_env start = items_info_loop three_env three_listings after_items"
    using three_items
    by (simp add: get_my_items_info_def Let_def get_success_def ok_response_def three_listings_def)
  then show ?thesis
    using position_10 position_equal [of "9.5"]
    by (simp add: three_listings_def Let_def split_beta three_item_info get_item_id_def
          get_market_hash_name_def get_price_def
          item_A_def item_B_def item_C_def)
qed

lemma three_update:
  "fst (update_item_price three_env item p True w) = True"
proof -
  have "fst (set_price three_env (item_id item) p ''USD'' w) = ok_response"
    unfolding set_price_def
    by (subst make_request_returned [where body = ok_response])
       (simp_all add: request_of_def three_env_def three_transport_def)
  then have "get_success (fst (set_price three_env (item_id item) p ''USD'' w))"
    by (simp add: get_success_def ok_response_def)
  then show ?thesis
    using update_attempt_success
            [of three_env item p w "fst (set_price three_env (item_id item) p ''USD'' w)"
               "snd (set_price three_env (item_id item) p ''USD'' w)" 0]
    by (simp add: update_item_price_def)
qed

lemma three_branches:
  "branches three_env three_config True [item_A, item_B, item_C] w =
     [Already_first, Price_updated, Below_min]"
proof -
  have a: "item_branch three_env three_config True item_A w' = Already_first" for w'
    by (simp add: item_branch_def item_A_def)
  have b: "item_branch three_env three_config True item_B w' = Price_updated" for w'
  proof -
    have "should_update_price three_config item_B = (True, Some 9.49)"
      by (simp add: should_update_price_def get_min_price_def three_config_def item_B_def)
    then show ?thesis
      by (simp add: item_branch_def three_update) (simp add: item_B_def)
  qed
  have c: "item_branch three_env three_config True item_C w' = Below_min" for w'
  proof -
    have "should_update_price three_config item_C = (False, None)"
      by (simp add: should_update_price_def get_min_price_def three_config_def item_C_def)
    moreover have "below_min_test three_config item_C"
      by (simp add: below_min_test_def get_min_price_def three_config_def item_C_def)
    ultimately show ?thesis
      by (simp add: item_branch_def) (simp add: item_C_def)
  qed
  show ?thesis by (simp add: a b c)
qed

theorem statistics_invariant_witness:
  "total_items (fst (process_all_items three_env three_config True start)) = 3 \<and>
   first_position (fst (process_all_items three_env three_config True start)) = 1 \<and>
   updated (fst (process_all_items three_env three_config True start)) = 1 \<and>
   skipped (fst (process_all_items three_env three_config True start)) = 1 \<and>
   below_min (fst (process_all_items three_env three_config True start)) = 1 \<and>
   process_all_items three_env three_config True start =
     process_loop three_env three_config True [item_C]
       (process_item three_env three_config True item_B
          (process_loop three_env three_config True [item_A]
             (initial_stats 3, snd (get_my_items_info three_env start))))"
proof -
  have g: "get_my_items_info three_env start =
      ([item_A, item_B, item_C], snd (get_my_items_info three_env start))"
    using three_infos by (metis prod.collapse)
  let ?s = "fst (process_all_items three_env three_config True start)"
  note t = statistics_invariant [OF g refl refl, of three_config True]
  have b: "branches three_env three_config True [item_A, item_B, item_C]
             (snd (get_my_items_info three_env start))
           = [Already_first, Price_updated, Below_min]"
    by (rule three_branches)
  have n: "total_items ?s = 3"
    using t [THEN conjunct1] by simp
  have f: "first_position ?s = 1"
    using t [THEN conjunct2, THEN conjunct2, THEN conjunct1] unfolding b by simp
  have u: "updated ?s = 1"
    using t [THEN conjunct2, THEN conjunct2, THEN conjunct2, THEN conjunct1] unfolding b by simp
  have k: "skipped ?s = 1"
    using t [THEN conjunct2, THEN conjunct2, THEN conjunct2, THEN conjunct2, THEN conjunct1]
    unfolding b by simp
  have m: "below_min ?s = 1"
    using t [THEN conjunct2, THEN conjunct2, THEN conjunct2, THEN conjunct2, THEN conjunct2,
             THEN conjunct1]
    unfolding b by simp
  have split: "[item_A, item_B, item_C] = [item_A] @ item_B # [item_C]" by simp
  note each = t [THEN conjunct2, THEN conjunct2, THEN conjunct2, THEN conjunct2, THEN conjunct2,
                 THEN conjunct2, THEN conjunct2, THEN conjunct2, rule_format, OF split]
  have run: "process_all_items three_env three_config True start =
     process_loop three_env three_config True [item_C]
       (process_item three_env three_config True item_B
          (process_loop three_env three_config True [item_A]
             (initial_stats 3, snd (get_my_items_info three_env start))))"
    using each [unfolded Let_def, THEN conjunct1] by (simp del: process_loop.simps)
  show ?thesis
    using n f u k m run by (simp del: process_loop.simps)
qed

text \<open>
  Claim C1, as stated, fails: in the cycle over the listings \<open>A\<close> (already first), \<open>B\<close>
  (updated successfully) and \<open>C\<close> (below its floor) the statistics are total 3, first 1,
  updated 1, below-floor 1 and skipped 1, not skipped 2. A listing that is already first
  is counted in \<open>first_position\<close> only.
\<close>

theorem three_listings_skipped_counterexample:
  "fst (get_my_items_info three_env start) = [item_A, item_B, item_C] \<and>
   branches three_env three_config True [item_A, item_B, item_C]
       (snd (get_my_items_info three_env start))
     = [Already_first, Price_updated, Below_min] \<and>
   fst (process_all_items three_env three_config True start) =
     \<lparr>total_items = 3, updated = 1, skipped = 1, first_position = 1, below_min = 1\<rparr> \<and>
   fst (process_all_items three_env three_config True start) \<noteq>
     \<lparr>total_items = 3, updated = 1, skipped = 2, first_position = 1, below_min = 1\<rparr>"
proof -
  have g: "get_my_items_info three_env start =
      ([item_A, item_B, item_C], snd (get_my_items_info three_env start))"
    using three_infos by (metis prod.collapse)
  have "fst (process_all_items three_env three_config True start) =
     \<lparr>total_items = 3, updated = 1, skipped = 1, first_position = 1, below_min = 1\<rparr>"
    unfolding stats_of_counts [OF g refl] three_branches by simp
  then show ?thesis
    by (simp add: three_infos three_branches del: branches.simps)
qed

text \<open>
  Claim C1, amended. For every cycle over three listings of which one is already first,
  one is updated successfully and one is not first and has its candidate price below
  its non-zero floor, in any order, the statistics are total 3, first 1, updated 1,
  skipped 1 and below-floor 1.
\<close>

theorem three_listings_statistics:
  assumes "get_my_items_info e w = (its, w1)"
    and "mset (branches e cfg auto_confirm its w1) = {#Already_first, Price_updated, Below_min#}"
  shows "fst (process_all_items e cfg auto_confirm w) =
     \<lparr>total_items = 3, updated = 1, skipped = 1, first_position = 1, below_min = 1\<rparr>"
proof -
  define bs where "bs = branches e cfg auto_confirm its w1"
  have c: "count_list bs b = count {#Already_first, Price_updated, Below_min#} b" for b
    using assms(2) by (simp add: bs_def flip: count_mset)
  have "length bs = size (mset bs)" by simp
  also have "\<dots> = 3" using assms(2) by (simp add: bs_def)
  finally have len: "length its = 3" by (simp add: bs_def)
  show ?thesis
    unfolding stats_of_counts [OF assms(1) bs_def] c len by simp
qed


theorem three_listings_statistics_witness:
  "mset (branches three_env three_config True [item_A, item_B, item_C]
           (snd (get_my_items_info three_env start)))
     = {#Already_first, Price_updated, Below_min#} \<and>
   fst (process_all_items three_env three_config True start) =
     \<lparr>total_items = 3, updated = 1, skipped = 1, first_position = 1, below_min = 1\<rparr>"
proof -
  have g: "get_my_items_info three_env start =
      ([item_A, item_B, item_C], snd (get_my_items_info three_env start))"
    using three_infos by (metis prod.collapse)
  have m: "mset (branches three_env three_config True [item_A, item_B, item_C]
           (snd (get_my_items_info three_env start)))
     = {#Already_first, Price_updated, Below_min#}"
    by (simp add: three_branches del: branches.simps)
  show ?thesis
    using m three_listings_statistics [OF g m] by simp
qed

end
